theory Spec2Isabelle
  imports Complex_Main
begin

section \<open>Wallet verification API: the nonce store and the two handlers\<close>

text \<open>
  The development embeds \<^verbatim>\<open>src/node.js\<close>: the process-wide map \<^verbatim>\<open>nonces\<close>, the handler of
  \<^verbatim>\<open>GET /api/nonce\<close> (lines 56 to 72) and the handler of \<^verbatim>\<open>POST /api/verify\<close>
  (lines 77 to 138). Logging and the mail step (lines 107 to 135, whose errors are caught) touch
  neither the map nor the reply and are left out. The library call
  \<^verbatim>\<open>ethers.verifyMessage\<close> is a parameter of the verify handler: it returns the recovered
  address or throws.
\<close>

subsection \<open>JavaScript values\<close>

text \<open>
  The fields of \<^verbatim>\<open>req.query\<close> and of the JSON body \<^verbatim>\<open>req.body\<close> are dynamically typed.
  \<open>JUndefined\<close> is a missing field; \<open>JNum\<close> carries an integer-valued number; \<open>JObj\<close> is
  any object or array, whose contents no operation of this program reads. A number with a
  fraction is not represented: in the handlers it behaves as a non-zero \<open>JNum\<close> does.
\<close>

datatype jsval = JUndefined | JNull | JBool bool | JNum int | JStr string | JObj

text \<open>The test \<^verbatim>\<open>!v\<close> of the handlers is \<open>\<not> truthy v\<close>.\<close>

fun truthy :: "jsval \<Rightarrow> bool" where
  "truthy JUndefined = False"
| "truthy JNull = False"
| "truthy (JBool b) = b"
| "truthy (JNum n) = (n \<noteq> 0)"
| "truthy (JStr s) = (s \<noteq> [])"
| "truthy JObj = True"

text \<open>Exceptions that leave a handler: a \<^verbatim>\<open>TypeError\<close> of the language, or whatever
  \<^verbatim>\<open>ethers.verifyMessage\<close> throws on a signature it cannot decode.\<close>

datatype js_error = TypeError | SignatureError

subsection \<open>Strings\<close>

text \<open>\<^verbatim>\<open>String.prototype.toLowerCase\<close> on ASCII strings, which addresses and nonces are:
  the letters \<^verbatim>\<open>A\<close> to \<^verbatim>\<open>Z\<close> move to \<^verbatim>\<open>a\<close> to \<^verbatim>\<open>z\<close>, every other character stays.
  (JavaScript also lowers capital letters outside ASCII; the model leaves those bytes as they
  are.)\<close>

definition lower_char :: "char \<Rightarrow> char" where
  "lower_char c =
     (let n = (of_char c :: nat) in if 65 \<le> n \<and> n \<le> 90 then char_of (n + 32) else c)"

definition toLowerCase :: "string \<Rightarrow> string" where
  "toLowerCase s = map lower_char s"

text \<open>The method call \<^verbatim>\<open>v.toLowerCase()\<close> on a dynamically typed value: only a string has
  the method; on any other value the call throws a \<^verbatim>\<open>TypeError\<close>.\<close>

fun call_toLowerCase :: "jsval \<Rightarrow> js_error + string" where
  "call_toLowerCase (JStr s) = Inr (toLowerCase s)"
| "call_toLowerCase v = Inl TypeError"

text \<open>Two strings differ only in letter case when they have the same length and agree
  position by position up to the case of a letter.\<close>

definition same_up_to_case :: "string \<Rightarrow> string \<Rightarrow> bool" where
  "same_up_to_case a b = list_all2 (\<lambda>x y. lower_char x = lower_char y) a b"

subsection \<open>Numbers and their decimal text\<close>

definition digit_char :: "nat \<Rightarrow> char" where
  "digit_char d = ''0123456789'' ! d"

fun decimal :: "nat \<Rightarrow> string" where
  "decimal n = (if n < 10 then [digit_char n] else decimal (n div 10) @ [digit_char (n mod 10)])"

declare decimal.simps [simp del]

text \<open>\<^verbatim>\<open>Number.prototype.toString\<close> on an integer-valued number (below \<open>10\<^sup>2\<^sup>1\<close> in
  magnitude, where JavaScript switches to exponent notation).\<close>

definition number_toString :: "int \<Rightarrow> string" where
  "number_toString i = (if i < 0 then CHR ''-'' # decimal (nat (- i)) else decimal (nat i))"

text \<open>The text a template literal \<^verbatim>\<open>${v}\<close> inserts for a value.\<close>

fun template_text :: "jsval \<Rightarrow> string" where
  "template_text JUndefined = ''undefined''"
| "template_text JNull = ''null''"
| "template_text (JBool b) = (if b then ''true'' else ''false'')"
| "template_text (JNum n) = number_toString n"
| "template_text (JStr s) = s"
| "template_text JObj = ''[object Object]''"

text \<open>Reading a decimal text back, to state what "decimal representation" means.\<close>

definition digit_value :: "char \<Rightarrow> nat" where
  "digit_value c = of_char c - 48"

definition is_digit :: "char \<Rightarrow> bool" where
  "is_digit c = (48 \<le> (of_char c :: nat) \<and> (of_char c :: nat) \<le> 57)"

definition parse_decimal :: "string \<Rightarrow> nat" where
  "parse_decimal s = foldl (\<lambda>acc c. 10 * acc + digit_value c) 0 s"

subsection \<open>The random source\<close>

text \<open>
  \<^verbatim>\<open>Math.random()\<close> returns a binary64 number in \<open>[0, 1)\<close>. A non-negative finite binary64
  number is a mantissa below \<open>2\<^sup>5\<^sup>3\<close> scaled by a power of two, the exponent at least
  \<open>-1074\<close>.
\<close>

record double =
  mantissa :: int
  exponent :: int

definition double_value :: "double \<Rightarrow> rat" where
  "double_value d = of_int (mantissa d) * 2 powi exponent d"

definition is_double :: "double \<Rightarrow> bool" where
  "is_double d =
     (0 \<le> mantissa d \<and> mantissa d < 2 ^ 53 \<and> - 1074 \<le> exponent d \<and> exponent d \<le> 971)"

text \<open>What \<^verbatim>\<open>Math.random()\<close> may return.\<close>

definition is_random :: "double \<Rightarrow> bool" where
  "is_random d = (is_double d \<and> double_value d < 1)"

fun bit_length :: "nat \<Rightarrow> nat" where
  "bit_length n = (if n = 0 then 0 else Suc (bit_length (n div 2)))"

declare bit_length.simps [simp del]

text \<open>\<open>m / 2\<^sup>k\<close> rounded to the nearest integer, a tie to the even one: the rounding of
  binary64 arithmetic.\<close>

definition round_half_even :: "int \<Rightarrow> nat \<Rightarrow> int" where
  "round_half_even m k =
     (let q = m div 2 ^ k; r = m mod 2 ^ k
      in if 2 * r < 2 ^ k then q
         else if 2 ^ k < 2 * r then q + 1
         else if even q then q else q + 1)"

text \<open>The binary64 product \<^verbatim>\<open>d * c\<close> of a non-negative number and a positive integer
  constant that is itself a binary64 number: the exact product, its mantissa rounded to 53
  bits. (The product of a number below one and \<open>1000000\<close> does not overflow, and being a
  multiple of \<open>2\<^sup>-\<^sup>1\<^sup>0\<^sup>7\<^sup>4\<close> it needs no subnormal rounding.)\<close>

definition double_times :: "double \<Rightarrow> int \<Rightarrow> double" where
  "double_times d c =
     (let m = mantissa d * c;
          k = bit_length (nat m) - 53
      in \<lparr>mantissa = round_half_even m k, exponent = exponent d + int k\<rparr>)"

text \<open>\<^verbatim>\<open>Math.floor\<close> of a non-negative binary64 number, as an integer.\<close>

definition math_floor :: "double \<Rightarrow> int" where
  "math_floor d =
     (if 0 \<le> exponent d then mantissa d * 2 ^ nat (exponent d)
      else mantissa d div 2 ^ nat (- exponent d))"

text \<open>Line 64: \<^verbatim>\<open>Math.floor(Math.random() * 1_000_000).toString()\<close>, given what
  \<^verbatim>\<open>Math.random()\<close> returned.\<close>

definition fresh_nonce :: "double \<Rightarrow> string" where
  "fresh_nonce rnd = number_toString (math_floor (double_times rnd 1000000))"

subsection \<open>The nonce map\<close>

text \<open>Line 21: \<^verbatim>\<open>const nonces = new Map()\<close>, keyed by lowercased address strings and
  holding nonce strings.\<close>

type_synonym nonce_map = "string \<rightharpoonup> string"

definition new_Map :: nonce_map where
  "new_Map = Map.empty"

text \<open>\<^verbatim>\<open>Map.prototype.get\<close>: the stored value, or \<^verbatim>\<open>undefined\<close>.\<close>

definition map_get :: "nonce_map \<Rightarrow> string \<Rightarrow> jsval" where
  "map_get m k = (case m k of None \<Rightarrow> JUndefined | Some v \<Rightarrow> JStr v)"

definition map_set :: "nonce_map \<Rightarrow> string \<Rightarrow> string \<Rightarrow> nonce_map" where
  "map_set m k v = m(k \<mapsto> v)"

definition map_delete :: "nonce_map \<Rightarrow> string \<Rightarrow> nonce_map" where
  "map_delete m k = m(k := None)"

subsection \<open>Replies\<close>

datatype reply_body = Error_body string | Nonce_body string | Success_body bool

datatype reply = Reply nat reply_body

subsection \<open>Step 1: \<^verbatim>\<open>GET /api/nonce\<close>\<close>

text \<open>
  The handler of lines 56 to 72, given the value of \<^verbatim>\<open>Math.random()\<close>, the query's
  \<^verbatim>\<open>address\<close> and the map. It returns the reply, or the exception thrown, and the map
  afterwards. The nonce is drawn (line 64) before \<^verbatim>\<open>address.toLowerCase()\<close> is called
  (line 65).
\<close>

definition api_nonce :: "double \<Rightarrow> jsval \<Rightarrow> nonce_map \<Rightarrow> (js_error + reply) \<times> nonce_map" where
  "api_nonce rnd addr nonces =
     (if \<not> truthy addr then (Inr (Reply 400 (Error_body ''Address required'')), nonces)
      else
        let n = fresh_nonce rnd in
        case call_toLowerCase addr of
          Inl err \<Rightarrow> (Inl err, nonces)
        | Inr key \<Rightarrow> (Inr (Reply 200 (Nonce_body n)), map_set nonces key n))"

subsection \<open>Step 2: \<^verbatim>\<open>POST /api/verify\<close>\<close>

record verify_body =
  address :: jsval
  signature :: jsval
  nonce :: jsval
  email :: jsval

text \<open>The branch the handler leaves by, named after its log line: "missing data" (line 81),
  "Invalid nonce" (line 87), "Signature mismatch" (line 96), "Wallet verified" (line 104).\<close>

datatype verdict = MissingField | NonceMismatch | SignatureMismatch | Verified

fun verdict_reply :: "verdict \<Rightarrow> reply" where
  "verdict_reply MissingField = Reply 400 (Success_body False)"
| "verdict_reply NonceMismatch = Reply 401 (Success_body False)"
| "verdict_reply SignatureMismatch = Reply 401 (Success_body False)"
| "verdict_reply Verified = Reply 200 (Success_body True)"

text \<open>Line 91: the message whose signature is checked.\<close>

definition signing_message :: "jsval \<Rightarrow> string" where
  "signing_message n = ''Sign to verify ownership:'' @ [CHR 0x0A] @ ''Nonce: '' @ template_text n"

text \<open>
  Lines 80 to 101 of the handler, given the library function \<^verbatim>\<open>ethers.verifyMessage\<close>
  (\<open>Inl\<close> when it throws), the four fields line 78 read off the body and the map. \<open>Inl\<close> in the result is an exception that
  leaves the handler: nothing in lines 85 to 101 catches one. \<^verbatim>\<open>address.toLowerCase()\<close> is
  evaluated at lines 85, 94 and 101 with the same result, bound once here as \<open>key\<close>.
  \<open>storedNonce\<close> is \<^verbatim>\<open>undefined\<close> or a string, so the strict inequality of line 86 holds
  exactly when the claimed nonce is not that very value.
\<close>

definition api_verify ::
  "(string \<Rightarrow> jsval \<Rightarrow> js_error + string) \<Rightarrow> verify_body \<Rightarrow> nonce_map
     \<Rightarrow> (js_error + verdict) \<times> nonce_map" where
  "api_verify verifyMessage body nonces =
     (if \<not> truthy (address body) \<or> \<not> truthy (signature body)
         \<or> \<not> truthy (nonce body) \<or> \<not> truthy (email body)
      then (Inr MissingField, nonces)
      else
        case call_toLowerCase (address body) of
          Inl err \<Rightarrow> (Inl err, nonces)
        | Inr key \<Rightarrow>
            let storedNonce = map_get nonces key in
            if \<not> truthy storedNonce \<or> storedNonce \<noteq> nonce body
            then (Inr NonceMismatch, nonces)
            else
              let message = signing_message (nonce body) in
              (case verifyMessage message (signature body) of
                 Inl err \<Rightarrow> (Inl err, nonces)
               | Inr recovered \<Rightarrow>
                   if toLowerCase recovered \<noteq> key
                   then (Inr SignatureMismatch, nonces)
                   else (Inr Verified, map_delete nonces key)))"

text \<open>
  Line 78 reads the four fields off \<^verbatim>\<open>req.body\<close>. The JSON middleware of line 10 makes
  \<^verbatim>\<open>req.body\<close> the parsed object when the request carried a JSON body; a field the object
  lacks reads as \<open>JUndefined\<close>. When the request carried no body, Express 5 leaves
  \<^verbatim>\<open>req.body\<close> \<^verbatim>\<open>undefined\<close> (Express 4 made it the empty object), and the destructuring of
  line 78 throws a \<^verbatim>\<open>TypeError\<close> before any test is made. \<open>None\<close> is the undefined body.
\<close>

text \<open>The whole handler of lines 77 to 101, from the body as the middleware left it.\<close>

definition api_verify_req ::
  "(string \<Rightarrow> jsval \<Rightarrow> js_error + string) \<Rightarrow> verify_body option \<Rightarrow> nonce_map
     \<Rightarrow> (js_error + verdict) \<times> nonce_map" where
  "api_verify_req verifyMessage req_body nonces =
     (case req_body of
        None \<Rightarrow> (Inl TypeError, nonces)
      | Some body \<Rightarrow> api_verify verifyMessage body nonces)"

subsection \<open>Well-formed addresses\<close>

text \<open>An address is meant to be a hexadecimal string of fixed length: for a wallet address,
  \<^verbatim>\<open>0x\<close> and forty hexadecimal digits. Neither handler tests it.\<close>

definition is_hex_digit :: "char \<Rightarrow> bool" where
  "is_hex_digit c =
     (let n = (of_char c :: nat)
      in (48 \<le> n \<and> n \<le> 57) \<or> (65 \<le> n \<and> n \<le> 70) \<or> (97 \<le> n \<and> n \<le> 102))"

definition is_hex_address :: "string \<Rightarrow> bool" where
  "is_hex_address s = (length s = 42 \<and> take 2 s = ''0x'' \<and> list_all is_hex_digit (drop 2 s))"

subsection \<open>Values for the examples\<close>

text \<open>Two values \<^verbatim>\<open>Math.random()\<close> can return: one half, and the largest binary64 number
  below one.\<close>

definition half :: double where
  "half = \<lparr>mantissa = 1, exponent = - 1\<rparr>"

definition largest_below_one :: double where
  "largest_below_one = \<lparr>mantissa = 2 ^ 53 - 1, exponent = - 53\<rparr>"

text \<open>
  Stand-ins for \<^verbatim>\<open>ethers.verifyMessage\<close> in the examples. For \<open>toy_verifyMessage\<close> a
  signature is a string holding the signer's address, a slash and the signed message: recovery
  over the signed message returns the signer, over another message it returns an unrelated
  address, and a signature without a slash (or one that is no string) cannot be decoded, so the
  call throws. \<open>const_verifyMessage r\<close> answers \<open>r\<close> whatever it is given.
\<close>

definition toy_sign :: "string \<Rightarrow> string \<Rightarrow> jsval" where
  "toy_sign signer message = JStr (signer @ CHR ''/'' # message)"

definition toy_verifyMessage :: "string \<Rightarrow> jsval \<Rightarrow> js_error + string" where
  "toy_verifyMessage message sig =
     (case sig of
        JStr s \<Rightarrow>
          (let signer = takeWhile (\<lambda>c. c \<noteq> CHR ''/'') s
           in if length signer = length s then Inl SignatureError
              else if drop (length signer + 1) s = message then Inr signer
              else Inr ''0x0000000000000000000000000000000000000000'')
      | _ \<Rightarrow> Inl SignatureError)"

definition const_verifyMessage :: "js_error + string \<Rightarrow> string \<Rightarrow> jsval \<Rightarrow> js_error + string" where
  "const_verifyMessage r message sig = r"

text \<open>A request for the examples: the map after a nonce was handed out for \<^verbatim>\<open>0xAbC1\<close>
  with the draw one half, and a body that claims the same address in another letter case, signed
  by that address over the message of the nonce.\<close>

definition example_nonces :: nonce_map where
  "example_nonces = snd (api_nonce half (JStr ''0xAbC1'') new_Map)"

definition example_body :: verify_body where
  "example_body =
     \<lparr>address = JStr ''0xaBc1'',
      signature = toy_sign ''0xABC1'' (signing_message (JStr ''500000'')),
      nonce = JStr ''500000'',
      email = JStr ''user@example.org''\<rparr>"

text \<open>The example map after a second address has been given a nonce, the draw being the
  largest number below one.\<close>

definition two_nonces :: nonce_map where
  "two_nonces = snd (api_nonce largest_below_one (JStr ''0xFFFF'') example_nonces)"

section \<open>Auxiliary facts\<close>

subsection \<open>The random draw stays below one million\<close>

lemma bit_length_bounds: "0 < n \<Longrightarrow> 2 ^ (bit_length n - 1) \<le> n \<and> n < 2 ^ bit_length n"
proof (induction n rule: bit_length.induct)
  case (1 n)
  have bl: "bit_length n = Suc (bit_length (n div 2))"
    using "1.prems" by (subst bit_length.simps) simp
  have lo: "2 * (n div 2) \<le> n" and hi: "n < 2 * (n div 2) + 2"
    by linarith+
  show ?case
  proof (cases "n div 2 = 0")
    case True
    then have "bit_length (n div 2) = 0" by (simp add: bit_length.simps)
    with True hi "1.prems" show ?thesis by (simp add: bl)
  next
    case False
    then have pos: "0 < n div 2" by simp
    from "1.IH" [OF _ pos] "1.prems"
    have ih: "2 ^ (bit_length (n div 2) - 1) \<le> n div 2" "n div 2 < 2 ^ bit_length (n div 2)"
      by auto
    have "0 < bit_length (n div 2)"
      using pos by (subst bit_length.simps) simp
    then obtain j where j: "bit_length (n div 2) = Suc j" by (cases "bit_length (n div 2)") auto
    define A :: nat where "A = 2 ^ j"
    from ih have "A \<le> n div 2" "n div 2 < 2 * A" by (simp_all add: j A_def)
    with lo hi have "2 * A \<le> n \<and> n < 2 * (2 * A)" by linarith
    then show ?thesis by (simp add: bl j A_def)
  qed
qed

lemma round_half_even_exact: "round_half_even m 0 = m"
  by (simp add: round_half_even_def)

lemma round_half_even_upper: "2 * (round_half_even m k * 2 ^ k) \<le> 2 * m + 2 ^ k"
proof -
  define q where "q = m div 2 ^ k"
  define r where "r = m mod 2 ^ k"
  have m: "m = q * 2 ^ k + r" unfolding q_def r_def by (rule div_mult_mod_eq [symmetric])
  have r0: "0 \<le> r" by (simp add: r_def)
  have "round_half_even m k = q \<or> (round_half_even m k = q + 1 \<and> 2 ^ k \<le> 2 * r)"
    unfolding round_half_even_def Let_def q_def [symmetric] r_def [symmetric] by auto
  then show ?thesis using r0 unfolding m by (auto simp: algebra_simps)
qed

lemma round_half_even_nonneg: "0 \<le> m \<Longrightarrow> 0 \<le> round_half_even m k"
  by (auto simp: round_half_even_def Let_def pos_imp_zdiv_nonneg_iff)

lemma math_floor_eq: "math_floor d = \<lfloor>double_value d\<rfloor>"
proof (cases "0 \<le> exponent d")
  case True
  then have "double_value d = of_int (mantissa d * 2 ^ nat (exponent d))"
    by (simp add: double_value_def power_int_def)
  then show ?thesis using True by (simp add: math_floor_def del: of_int_mult of_int_power)
next
  case False
  then have "double_value d = of_int (mantissa d) / of_int (2 ^ nat (- exponent d))"
    by (simp add: double_value_def power_int_def field_simps)
  then show ?thesis using False by (simp add: math_floor_def floor_divide_of_int_eq del: of_int_power)
qed

lemma below_one_gap:
  fixes m e :: int and p :: nat
  assumes p: "0 < p" and m: "0 \<le> m" "m < 2 ^ p" and v: "rat_of_int m * 2 powi e < 1"
  shows "rat_of_int m * 2 powi e \<le> 1 - 1 / 2 ^ p"
proof (cases "- int p \<le> e")
  case True
  define j where "j = nat (e + int p)"
  have e: "e = int j - int p" using True by (simp add: j_def)
  have val: "rat_of_int m * 2 powi e = of_int (m * 2 ^ j) / 2 ^ p"
    by (simp add: e power_int_diff)
  from v have "rat_of_int (m * 2 ^ j) < rat_of_int (2 ^ p)"
    unfolding val by (simp add: field_simps)
  then have "m * 2 ^ j < 2 ^ p" by (simp only: of_int_less_iff)
  then have "m * 2 ^ j \<le> 2 ^ p - 1" by simp
  then have "rat_of_int (m * 2 ^ j) \<le> rat_of_int (2 ^ p - 1)" by (simp only: of_int_le_iff)
  then show ?thesis unfolding val by (simp add: field_simps)
next
  case False
  then have "e \<le> - int p - 1" by simp
  then have "(2::rat) powi e \<le> 2 powi (- int p - 1)"
    by (intro power_int_increasing) auto
  moreover have "rat_of_int m \<le> rat_of_int (2 ^ p)" using m(2) by (simp only: of_int_le_iff)
  moreover have "0 \<le> rat_of_int m" using m(1) by simp
  ultimately have "rat_of_int m * 2 powi e \<le> rat_of_int (2 ^ p) * 2 powi (- int p - 1)"
    by (intro mult_mono) auto
  also have "\<dots> = 1 / 2" by (simp add: power_int_diff power_int_minus)
  also have "\<dots> \<le> 1 - 1 / 2 ^ p"
  proof -
    have "(1::rat) / 2 ^ p \<le> 1 / 2" 
      using p by (cases p) (auto simp: field_simps)
    then show ?thesis by simp
  qed
  finally show ?thesis .
qed

lemma draw_value_bounds:
  assumes "is_random d"
  shows "0 \<le> double_value (double_times d 1000000) \<and> double_value (double_times d 1000000) < 1000000"
proof -
  define m where "m = mantissa d"
  define e where "e = exponent d"
  define M where "M = m * 1000000"
  define k where "k = bit_length (nat M) - 53"
  define R where "R = round_half_even M k"
  define v where "v = double_value d"
  from assms have m: "0 \<le> m" "m < 2 ^ 53" and v1: "v < 1"
    by (auto simp: is_random_def is_double_def m_def v_def)
  have v: "v = rat_of_int m * 2 powi e"
    by (simp add: v_def double_value_def m_def e_def)
  have gap: "v \<le> 1 - 1 / 2 ^ 53"
    unfolding v using m v1 [unfolded v] by (intro below_one_gap) auto
  have M0: "0 \<le> M" using m by (simp add: M_def)
  have R0: "0 \<le> R" using M0 by (simp add: R_def round_half_even_nonneg)
  have P: "rat_of_int M * 2 powi e = 1000000 * v"
    by (simp add: M_def v)
  have val: "double_value (double_times d 1000000) = rat_of_int R * 2 powi (e + int k)"
    by (simp add: double_times_def double_value_def Let_def R_def k_def M_def m_def e_def)
  have lower: "0 \<le> rat_of_int R * 2 powi (e + int k)"
    using R0 by simp
  have upper: "rat_of_int R * 2 powi (e + int k) < 1000000"
  proof (cases "k = 0")
    case True
    then have "R = M" by (simp add: R_def round_half_even_exact)
    with True P v1 show ?thesis by simp
  next
    case False
    then have bl: "bit_length (nat M) = 53 + k" by (simp add: k_def)
    then have pos: "0 < nat M" by (subst (asm) bit_length.simps) (auto split: if_splits)
    define E where "E = 52 + k"
    from bit_length_bounds [OF pos] have "2 ^ E \<le> nat M" by (simp add: bl E_def)
    then have "int (2 ^ E) \<le> M" using M0 by linarith
    then have "(2::int) ^ E \<le> M" by simp
    then have "rat_of_int (2 ^ E) \<le> rat_of_int M" by (simp only: of_int_le_iff)
    then have "(2::rat) powi int E \<le> rat_of_int M" by simp
    then have "(2::rat) powi (52 + int k) \<le> rat_of_int M" by (simp add: E_def)
    then have "(2::rat) powi (52 + int k) * 2 powi e \<le> rat_of_int M * 2 powi e"
      by (intro mult_right_mono) auto
    then have "(2::rat) powi (52 + int k + e) \<le> 1000000 * v"
      by (simp add: power_int_add P)
    also have "\<dots> < 2 powi 20" using v1 by simp
    finally have lt: "(2::rat) powi (52 + int k + e) < 2 powi 20" .
    have "52 + int k + e < 20"
      by (rule power_int_le_imp_less_exp [OF _ lt]) simp_all
    then have ek: "e + int k \<le> - 33" by simp
    have ulp: "(2::rat) powi (e + int k) \<le> 2 powi (- 33)"
      using ek by (intro power_int_increasing) auto
    have "2 * (R * 2 ^ k) \<le> 2 * M + 2 ^ k"
      unfolding R_def by (rule round_half_even_upper)
    then have "rat_of_int (2 * (R * 2 ^ k)) \<le> rat_of_int (2 * M + 2 ^ k)"
      by (simp only: of_int_le_iff)
    then have "2 * (rat_of_int R * 2 ^ k) \<le> 2 * rat_of_int M + 2 ^ k" by simp
    then have "(2 * (rat_of_int R * 2 ^ k)) * 2 powi e \<le> (2 * rat_of_int M + 2 ^ k) * 2 powi e"
      by (intro mult_right_mono) auto
    moreover have "(2 * (rat_of_int R * 2 ^ k)) * 2 powi e = 2 * (rat_of_int R * 2 powi (e + int k))"
      by (simp add: power_int_add)
    moreover have "(2 * rat_of_int M + 2 ^ k) * 2 powi e
        = 2 * (rat_of_int M * 2 powi e) + 2 powi (e + int k)"
      by (simp add: power_int_add algebra_simps)
    ultimately have "2 * (rat_of_int R * 2 powi (e + int k)) \<le> 2 * (1000000 * v) + 2 powi (e + int k)"
      by (simp only: P)
    with ulp gap show ?thesis by (simp add: power_int_minus)
  qed
  show ?thesis unfolding val using lower upper by simp
qed

lemma draw_range:
  assumes "is_random d"
  shows "0 \<le> math_floor (double_times d 1000000) \<and> math_floor (double_times d 1000000) < 1000000"
proof -
  from draw_value_bounds [OF assms]
  have "0 \<le> double_value (double_times d 1000000)" "double_value (double_times d 1000000) < 1000000"
    by simp_all
  then show ?thesis unfolding math_floor_eq by (simp add: floor_less_iff)
qed

subsection \<open>Decimal text\<close>

lemma decimal_not_empty: "decimal n \<noteq> []"
  by (subst decimal.simps) simp

lemma number_toString_not_empty: "number_toString i \<noteq> []"
  by (simp add: number_toString_def decimal_not_empty)

lemma fresh_nonce_not_empty: "fresh_nonce rnd \<noteq> []"
  by (simp add: fresh_nonce_def number_toString_not_empty)

lemma below_ten: "d < 10 \<longleftrightarrow> d \<in> {0, 1, 2, 3, 4, 5, 6, 7, 8, 9::nat}"
  by auto

lemma digit_char_is_digit: "d < 10 \<Longrightarrow> is_digit (digit_char d)"
  unfolding below_ten by (auto simp: is_digit_def digit_char_def)

lemma digit_value_digit_char: "d < 10 \<Longrightarrow> digit_value (digit_char d) = d"
  unfolding below_ten by (auto simp: digit_value_def digit_char_def)

lemma decimal_digits: "list_all is_digit (decimal n)"
proof (induction n rule: decimal.induct)
  case (1 n)
  show ?case
  proof (cases "n < 10")
    case True
    then show ?thesis by (subst decimal.simps) (simp add: digit_char_is_digit)
  next
    case False
    with "1.IH" show ?thesis by (subst decimal.simps) (simp add: digit_char_is_digit)
  qed
qed

lemma parse_decimal_snoc: "parse_decimal (s @ [c]) = 10 * parse_decimal s + digit_value c"
  by (simp add: parse_decimal_def)

lemma parse_decimal_decimal: "parse_decimal (decimal n) = n"
proof (induction n rule: decimal.induct)
  case (1 n)
  show ?case
  proof (cases "n < 10")
    case True
    then show ?thesis by (subst decimal.simps) (simp add: parse_decimal_def digit_value_digit_char)
  next
    case False
    with "1.IH" show ?thesis
      by (subst decimal.simps) (simp add: parse_decimal_snoc digit_value_digit_char)
  qed
qed

lemma fresh_nonce_decimal:
  assumes "is_random rnd"
  shows "fresh_nonce rnd = decimal (nat (math_floor (double_times rnd 1000000)))
    \<and> nat (math_floor (double_times rnd 1000000)) < 1000000"
proof -
  define i where "i = math_floor (double_times rnd 1000000)"
  from draw_range [OF assms] have i: "0 \<le> i" "i < 1000000" by (simp_all add: i_def)
  then have "nat i < 1000000" by linarith
  moreover have "fresh_nonce rnd = decimal (nat i)"
    using i by (simp add: fresh_nonce_def number_toString_def i_def)
  ultimately show ?thesis by (simp add: i_def)
qed

subsection \<open>Letter case\<close>

lemma toLowerCase_idem: "toLowerCase (toLowerCase s) = toLowerCase s"
  by (induction s) (auto simp: toLowerCase_def lower_char_def Let_def)

lemma same_up_to_case_iff: "same_up_to_case a b \<longleftrightarrow> toLowerCase a = toLowerCase b"
  unfolding same_up_to_case_def toLowerCase_def
  by (induction a arbitrary: b) (auto simp: list_all2_Cons1)

subsection \<open>The verify handler, case by case\<close>

lemma api_verify_missing:
  assumes "\<not> truthy (address body) \<or> \<not> truthy (signature body) \<or> \<not> truthy (nonce body) \<or> \<not> truthy (email body)"
  shows "api_verify vm body nonces = (Inr MissingField, nonces)"
  using assms by (simp add: api_verify_def)

lemma api_verify_type_error:
  assumes "truthy (address body)" "truthy (signature body)" "truthy (nonce body)" "truthy (email body)"
    and "\<forall>a. address body \<noteq> JStr a"
  shows "api_verify vm body nonces = (Inl TypeError, nonces)"
  using assms by (cases "address body") (simp_all add: api_verify_def)

lemma api_verify_present:
  assumes "truthy (address body)" "truthy (signature body)" "truthy (nonce body)" "truthy (email body)"
    and "address body = JStr a"
  shows "api_verify vm body nonces =
    (if map_get nonces (toLowerCase a) \<noteq> nonce body then (Inr NonceMismatch, nonces)
     else case vm (signing_message (nonce body)) (signature body) of
            Inl err \<Rightarrow> (Inl err, nonces)
          | Inr recovered \<Rightarrow>
              if toLowerCase recovered \<noteq> toLowerCase a then (Inr SignatureMismatch, nonces)
              else (Inr Verified, map_delete nonces (toLowerCase a)))"
  using assms by (auto simp: api_verify_def Let_def)

lemma api_verify_store:
  "snd (api_verify vm body nonces) = nonces \<and> fst (api_verify vm body nonces) \<noteq> Inr Verified
   \<or> (\<exists>a v. address body = JStr a \<and> nonces (toLowerCase a) = Some v \<and> nonce body = JStr v
        \<and> fst (api_verify vm body nonces) = Inr Verified
        \<and> snd (api_verify vm body nonces) = map_delete nonces (toLowerCase a))"
proof (cases "truthy (address body) \<and> truthy (signature body) \<and> truthy (nonce body) \<and> truthy (email body)")
  case False
  then show ?thesis using api_verify_missing [of body vm nonces] by auto
next
  case True
  show ?thesis
  proof (cases "\<exists>a. address body = JStr a")
    case False
    with True show ?thesis using api_verify_type_error [of body vm nonces] by auto
  next
    case True
    then obtain a where a: "address body = JStr a" ..
    show ?thesis
      using \<open>truthy (address body) \<and> _\<close> a
      by (auto simp: api_verify_present [where a = a] map_get_def split: sum.splits option.splits)
  qed
qed

lemma api_verify_changed:
  assumes "fst (api_verify vm body nonces) = Inr Verified
      \<or> snd (api_verify vm body nonces) \<noteq> nonces"
  shows "truthy (address body) \<and> truthy (signature body) \<and> truthy (nonce body)
    \<and> truthy (email body)
    \<and> (\<exists>a n r. address body = JStr a \<and> nonces (toLowerCase a) = Some n
          \<and> nonce body = JStr n
          \<and> vm (signing_message (nonce body)) (signature body) = Inr r
          \<and> toLowerCase r = toLowerCase a)"
proof -
  have fields: "truthy (address body) \<and> truthy (signature body) \<and> truthy (nonce body)
      \<and> truthy (email body)"
  proof (rule ccontr)
    assume "\<not> ?thesis"
    then have "api_verify vm body nonces = (Inr MissingField, nonces)"
      by (intro api_verify_missing) blast
    with assms show False by simp
  qed
  have "\<exists>a. address body = JStr a"
  proof (rule ccontr)
    assume "\<not> ?thesis"
    with fields have "api_verify vm body nonces = (Inl TypeError, nonces)"
      by (intro api_verify_type_error) simp_all
    with assms show False by simp
  qed
  then obtain a where a: "address body = JStr a" ..
  from fields have present: "truthy (address body)" "truthy (signature body)"
      "truthy (nonce body)" "truthy (email body)"
    by simp_all
  from assms present(3) have "\<exists>n r. nonces (toLowerCase a) = Some n \<and> nonce body = JStr n
      \<and> vm (signing_message (nonce body)) (signature body) = Inr r
      \<and> toLowerCase r = toLowerCase a"
    unfolding api_verify_present [OF present a]
    by (auto simp: map_get_def split: if_splits sum.splits option.splits)
  with fields a show ?thesis by blast
qed

lemma api_verify_req_simps:
  "api_verify_req vm None nonces = (Inl TypeError, nonces)"
  "api_verify_req vm (Some body) nonces = api_verify vm body nonces"
  by (simp_all add: api_verify_req_def)

subsection \<open>The nonce handler, case by case\<close>

lemma api_nonce_missing:
  "\<not> truthy addr \<Longrightarrow>
     api_nonce rnd addr nonces = (Inr (Reply 400 (Error_body ''Address required'')), nonces)"
  by (simp add: api_nonce_def)

lemma api_nonce_string:
  "a \<noteq> [] \<Longrightarrow>
     api_nonce rnd (JStr a) nonces =
       (Inr (Reply 200 (Nonce_body (fresh_nonce rnd))),
        map_set nonces (toLowerCase a) (fresh_nonce rnd))"
  by (simp add: api_nonce_def Let_def)

lemma api_nonce_type_error:
  "truthy addr \<Longrightarrow> \<forall>a. addr \<noteq> JStr a \<Longrightarrow> api_nonce rnd addr nonces = (Inl TypeError, nonces)"
  by (cases addr) (simp_all add: api_nonce_def Let_def)

subsection \<open>The example values, evaluated\<close>

lemma bit_length_million: "bit_length 1000000 = 20"
  by (simp add: bit_length.simps)

lemma double_times_half:
  "double_times half 1000000 = \<lparr>mantissa = 1000000, exponent = - 1\<rparr>"
  by (simp add: double_times_def half_def Let_def bit_length_million round_half_even_def)

lemma decimal_500000: "decimal 500000 = ''500000''"
  by (simp add: decimal.simps digit_char_def)

lemma fresh_nonce_half: "fresh_nonce half = ''500000''"
  by (simp add: fresh_nonce_def double_times_half math_floor_def number_toString_def
      decimal_500000)

lemma is_random_half: "is_random half"
  by (simp add: is_random_def is_double_def double_value_def half_def)

lemma bit_length_largest: "bit_length 9007199254740991000000 = 73"
  by (simp add: bit_length.simps)

lemma round_half_even_largest: "round_half_even 9007199254740991000000 20 = 8589934591999999"
  by (simp add: round_half_even_def)

lemma double_times_largest:
  "double_times largest_below_one 1000000 = \<lparr>mantissa = 8589934591999999, exponent = - 33\<rparr>"
  by (simp add: double_times_def largest_below_one_def Let_def bit_length_largest
      round_half_even_largest)

lemma decimal_999999: "decimal 999999 = ''999999''"
  by (simp add: decimal.simps digit_char_def)

lemma fresh_nonce_largest: "fresh_nonce largest_below_one = ''999999''"
  by (simp add: fresh_nonce_def double_times_largest math_floor_def number_toString_def
      decimal_999999)

lemma is_random_largest: "is_random largest_below_one"
  by (simp add: is_random_def is_double_def double_value_def largest_below_one_def)

lemma toLowerCase_example: "toLowerCase ''0xAbC1'' = ''0xabc1''" "toLowerCase ''0xaBc1'' = ''0xabc1''"
  "toLowerCase ''0xABC1'' = ''0xabc1''" "toLowerCase ''0xabc1'' = ''0xabc1''"
  by code_simp+

lemma signing_message_example:
  "signing_message (JStr ''500000'') = ''Sign to verify ownership:'' @ CHR 0x0A # ''Nonce: 500000''"
  by (simp add: signing_message_def)

lemma toy_verifyMessage_signed: "toy_verifyMessage message (toy_sign ''0xABC1'' message) = Inr ''0xABC1''"
  by (simp add: toy_verifyMessage_def toy_sign_def)

lemma toy_verifyMessage_other: "toy_verifyMessage message (toy_sign ''0xdead'' message) = Inr ''0xdead''"
  by (simp add: toy_verifyMessage_def toy_sign_def)

lemma toLowerCase_other: "toLowerCase ''0xdead'' = ''0xdead''"
  by code_simp

lemma toy_verifyMessage_malformed: "toy_verifyMessage message (JStr ''0x1234'') = Inl SignatureError"
  by (simp add: toy_verifyMessage_def)

lemma example_nonces_eq: "example_nonces = map_set new_Map ''0xabc1'' ''500000''"
  by (simp add: example_nonces_def api_nonce_string fresh_nonce_half toLowerCase_example)

lemma example_nonces_lookup: "example_nonces ''0xabc1'' = Some ''500000''"
  by (simp add: example_nonces_eq map_set_def)

lemma example_body_fields:
  "address example_body = JStr ''0xaBc1''" "nonce example_body = JStr ''500000''"
  "truthy (address example_body)" "truthy (signature example_body)"
  "truthy (nonce example_body)" "truthy (email example_body)"
  by (simp_all add: example_body_def toy_sign_def)

lemma example_body_recovered:
  "toy_verifyMessage (signing_message (nonce example_body)) (signature example_body) = Inr ''0xABC1''"
  "toy_verifyMessage (signing_message (JStr ''500000'')) (signature example_body) = Inr ''0xABC1''"
  by (simp_all add: example_body_def toy_verifyMessage_signed)

lemma example_verified:
  "api_verify toy_verifyMessage example_body example_nonces
     = (Inr Verified, map_delete example_nonces ''0xabc1'')"
  by (simp add: api_verify_present [OF example_body_fields(3-6) example_body_fields(1)]
      example_body_fields(2) example_body_recovered toLowerCase_example map_get_def
      example_nonces_lookup)

lemma two_nonces_lookup:
  "two_nonces ''0xabc1'' = Some ''500000''" "two_nonces ''0xffff'' = Some ''999999''"
proof -
  have "toLowerCase ''0xFFFF'' = ''0xffff''" by code_simp
  then have eq: "two_nonces = map_set example_nonces ''0xffff'' ''999999''"
    by (simp add: two_nonces_def api_nonce_string fresh_nonce_largest)
  show "two_nonces ''0xabc1'' = Some ''500000''" "two_nonces ''0xffff'' = Some ''999999''"
    unfolding eq by (simp_all add: map_set_def example_nonces_lookup)
qed

lemma two_nonces_verified:
  "api_verify toy_verifyMessage example_body two_nonces
     = (Inr Verified, map_delete two_nonces ''0xabc1'')"
  by (simp add: api_verify_present [OF example_body_fields(3-6) example_body_fields(1)]
      example_body_fields(2) example_body_recovered toLowerCase_example map_get_def
      two_nonces_lookup)

section \<open>The claims\<close>

text \<open>
  C1. A verification request that passes every check (the four fields present, a nonce stored
  under the lowercased address and equal to the claimed one, the recovered signer equal to the
  claimed address up to letter case) is verified and removes the entry of the lowercased
  address, so that the same request sent again at once fails with the nonce-mismatch outcome.
  The nonce is consumed on this path only: for every recovery function, body and map, the
  outcome is "verified" exactly when the map afterwards differs from the map before, and
  whenever the outcome is "verified" or the map has changed, every one of the checks was
  passed: the four fields were present, the address was a string with a nonce stored under its
  lowercase form, that nonce was the very string claimed, and recovery returned a signer
  equal to the claimed address up to letter case.
\<close>

theorem verify_success_consumes_nonce:
  assumes fields: "truthy (address body)" "truthy (signature body)" "truthy (nonce body)"
      "truthy (email body)"
    and claimed: "address body = JStr a"
    and stored: "nonces (toLowerCase a) = Some n" "nonce body = JStr n"
    and recovered: "vm (signing_message (nonce body)) (signature body) = Inr r"
      "toLowerCase r = toLowerCase a"
  shows "fst (api_verify vm body nonces) = Inr Verified
    \<and> snd (api_verify vm body nonces) = map_delete nonces (toLowerCase a)
    \<and> snd (api_verify vm body nonces) (toLowerCase a) = None
    \<and> fst (api_verify vm body (snd (api_verify vm body nonces))) = Inr NonceMismatch
    \<and> (\<forall>vm' (body' :: verify_body) nonces'.
          (fst (api_verify vm' body' nonces') = Inr Verified)
            = (snd (api_verify vm' body' nonces') \<noteq> nonces'))
    \<and> (\<forall>vm' (body' :: verify_body) nonces'.
          fst (api_verify vm' body' nonces') = Inr Verified
            \<or> snd (api_verify vm' body' nonces') \<noteq> nonces'
          \<longrightarrow> truthy (address body') \<and> truthy (signature body') \<and> truthy (nonce body')
              \<and> truthy (email body')
              \<and> (\<exists>a' n' r'. address body' = JStr a'
                    \<and> nonces' (toLowerCase a') = Some n' \<and> nonce body' = JStr n'
                    \<and> vm' (signing_message (nonce body')) (signature body') = Inr r'
                    \<and> toLowerCase r' = toLowerCase a'))"
proof -
  have first: "api_verify vm body nonces = (Inr Verified, map_delete nonces (toLowerCase a))"
    using stored recovered
    by (simp add: api_verify_present [OF fields claimed] map_get_def)
  have gone: "map_delete nonces (toLowerCase a) (toLowerCase a) = None"
    by (simp add: map_delete_def)
  have "truthy (JStr n)" using fields(3) stored(2) by simp
  then have again: "api_verify vm body (map_delete nonces (toLowerCase a))
      = (Inr NonceMismatch, map_delete nonces (toLowerCase a))"
    using stored(2) by (simp add: api_verify_present [OF fields claimed] map_get_def gone)
  have only: "(fst (api_verify vm' body' nonces') = Inr Verified)
      = (snd (api_verify vm' body' nonces') \<noteq> nonces')"
    for vm' and body' :: verify_body and nonces'
  proof -
    from api_verify_store [of vm' body' nonces'] show ?thesis
    proof (elim disjE exE conjE)
      assume "snd (api_verify vm' body' nonces') = nonces'"
        and "fst (api_verify vm' body' nonces') \<noteq> Inr Verified"
      then show ?thesis by simp
    next
      fix a' v
      assume held: "nonces' (toLowerCase a') = Some v"
        and verified: "fst (api_verify vm' body' nonces') = Inr Verified"
        and after: "snd (api_verify vm' body' nonces') = map_delete nonces' (toLowerCase a')"
      have "map_delete nonces' (toLowerCase a') (toLowerCase a') \<noteq> nonces' (toLowerCase a')"
        using held by (simp add: map_delete_def)
      then have "map_delete nonces' (toLowerCase a') \<noteq> nonces'" by metis
      with verified after show ?thesis by simp
    qed
  qed
  have checked: "\<forall>vm' (body' :: verify_body) nonces'.
          fst (api_verify vm' body' nonces') = Inr Verified
            \<or> snd (api_verify vm' body' nonces') \<noteq> nonces'
          \<longrightarrow> truthy (address body') \<and> truthy (signature body') \<and> truthy (nonce body')
              \<and> truthy (email body')
              \<and> (\<exists>a' n' r'. address body' = JStr a'
                    \<and> nonces' (toLowerCase a') = Some n' \<and> nonce body' = JStr n'
                    \<and> vm' (signing_message (nonce body')) (signature body') = Inr r'
                    \<and> toLowerCase r' = toLowerCase a')"
    by (intro allI impI) (rule api_verify_changed)
  from first gone again have "fst (api_verify vm body nonces) = Inr Verified
    \<and> snd (api_verify vm body nonces) = map_delete nonces (toLowerCase a)
    \<and> snd (api_verify vm body nonces) (toLowerCase a) = None
    \<and> fst (api_verify vm body (snd (api_verify vm body nonces))) = Inr NonceMismatch"
    by simp
  with only checked show ?thesis by blast
qed

theorem verify_success_consumes_nonce_witness:
  "example_nonces ''0xabc1'' = Some ''500000''
   \<and> fst (api_verify toy_verifyMessage example_body example_nonces) = Inr Verified
   \<and> snd (api_verify toy_verifyMessage example_body example_nonces) ''0xabc1'' = None
   \<and> fst (api_verify toy_verifyMessage example_body
            (snd (api_verify toy_verifyMessage example_body example_nonces)))
       = Inr NonceMismatch
   \<and> toy_verifyMessage (signing_message (JStr ''500000''))
         (toy_sign ''0xdead'' (signing_message (JStr ''500000''))) = Inr ''0xdead''
   \<and> fst (api_verify toy_verifyMessage
            (example_body\<lparr>signature := toy_sign ''0xdead'' (signing_message (JStr ''500000''))\<rparr>)
            example_nonces) \<noteq> Inr Verified
   \<and> snd (api_verify toy_verifyMessage
            (example_body\<lparr>signature := toy_sign ''0xdead'' (signing_message (JStr ''500000''))\<rparr>)
            example_nonces) = example_nonces"
proof -
  have stored: "example_nonces (toLowerCase ''0xaBc1'') = Some ''500000''"
    by (simp add: toLowerCase_example example_nonces_lookup)
  have signer: "toLowerCase ''0xABC1'' = toLowerCase ''0xaBc1''"
    by (simp add: toLowerCase_example)
  note t = verify_success_consumes_nonce
      [where vm = toy_verifyMessage and body = example_body and nonces = example_nonces
        and a = "''0xaBc1''" and n = "''500000''" and r = "''0xABC1''",
       OF example_body_fields(3-6) example_body_fields(1) stored example_body_fields(2)
        example_body_recovered(1) signer,
       unfolded toLowerCase_example]
  from t have verified: "fst (api_verify toy_verifyMessage example_body example_nonces) = Inr Verified"
    by blast
  from t
  have gone: "snd (api_verify toy_verifyMessage example_body example_nonces) ''0xabc1'' = None"
    by blast
  from t
  have again: "fst (api_verify toy_verifyMessage example_body
            (snd (api_verify toy_verifyMessage example_body example_nonces)))
       = Inr NonceMismatch"
    by blast
  let ?forged = "example_body\<lparr>signature := toy_sign ''0xdead'' (signing_message (JStr ''500000''))\<rparr>"
  have other: "toy_verifyMessage (signing_message (JStr ''500000''))
         (toy_sign ''0xdead'' (signing_message (JStr ''500000''))) = Inr ''0xdead''"
    by (rule toy_verifyMessage_other)
  have kept: "\<not> (fst (api_verify toy_verifyMessage ?forged example_nonces) = Inr Verified
      \<or> snd (api_verify toy_verifyMessage ?forged example_nonces) \<noteq> example_nonces)"
  proof
    assume "fst (api_verify toy_verifyMessage ?forged example_nonces) = Inr Verified
      \<or> snd (api_verify toy_verifyMessage ?forged example_nonces) \<noteq> example_nonces"
    with t obtain a' r' where "address ?forged = JStr a'"
      and "toy_verifyMessage (signing_message (nonce ?forged)) (signature ?forged) = Inr r'"
      and "toLowerCase r' = toLowerCase a'"
      by blast
    then have "a' = ''0xaBc1''" "r' = ''0xdead''" "toLowerCase r' = toLowerCase a'"
      by (simp_all add: example_body_fields other)
    then show False by (simp add: toLowerCase_example toLowerCase_other)
  qed
  then have "fst (api_verify toy_verifyMessage ?forged example_nonces) \<noteq> Inr Verified"
    and "snd (api_verify toy_verifyMessage ?forged example_nonces) = example_nonces"
    by blast+
  with verified gone again other example_nonces_lookup show ?thesis by (intro conjI)
qed

text \<open>
  C2 (the handler departs from the claim). The claim has a signature that recovery cannot
  decode answered with the signature-mismatch outcome, no exception leaving the handler. In
  the handler nothing catches what \<^verbatim>\<open>ethers.verifyMessage\<close> throws: for a request that
  passes the field and nonce checks and whose recovery throws \<open>err\<close>, the result is the
  exception \<open>err\<close>, not an outcome. The map is unchanged, as the claim says.
\<close>

theorem verify_lets_recovery_exception_escape:
  assumes fields: "truthy (address body)" "truthy (signature body)" "truthy (nonce body)"
      "truthy (email body)"
    and claimed: "address body = JStr a"
    and stored: "nonces (toLowerCase a) = Some n" "nonce body = JStr n"
    and thrown: "vm (signing_message (nonce body)) (signature body) = Inl err"
  shows "api_verify vm body nonces = (Inl err, nonces)
    \<and> fst (api_verify vm body nonces) \<noteq> Inr SignatureMismatch"
  using stored thrown by (simp add: api_verify_present [OF fields claimed] map_get_def)

theorem verify_lets_recovery_exception_escape_witness:
  "toy_verifyMessage (signing_message (JStr ''500000'')) (JStr ''0x1234'') = Inl SignatureError
   \<and> api_verify toy_verifyMessage (example_body\<lparr>signature := JStr ''0x1234''\<rparr>) example_nonces
       = (Inl SignatureError, example_nonces)
   \<and> fst (api_verify toy_verifyMessage (example_body\<lparr>signature := JStr ''0x1234''\<rparr>)
            example_nonces) \<noteq> Inr SignatureMismatch"
proof -
  let ?body = "example_body\<lparr>signature := JStr ''0x1234''\<rparr>"
  have fields: "truthy (address ?body)" "truthy (signature ?body)" "truthy (nonce ?body)"
      "truthy (email ?body)"
    by (simp_all add: example_body_fields)
  have claimed: "address ?body = JStr ''0xaBc1''" by (simp add: example_body_fields)
  have stored: "example_nonces (toLowerCase ''0xaBc1'') = Some ''500000''"
    by (simp add: toLowerCase_example example_nonces_lookup)
  have claimed_nonce: "nonce ?body = JStr ''500000''" by (simp add: example_body_fields)
  have thrown: "toy_verifyMessage (signing_message (nonce ?body)) (signature ?body)
      = Inl SignatureError"
    by (simp add: toy_verifyMessage_malformed)
  from verify_lets_recovery_exception_escape
      [where vm = toy_verifyMessage and body = ?body and nonces = example_nonces
        and a = "''0xaBc1''" and n = "''500000''" and err = SignatureError,
       OF fields claimed stored claimed_nonce thrown]
    toy_verifyMessage_malformed [of "signing_message (JStr ''500000'')"]
  show ?thesis by (intro conjI) blast+
qed

text \<open>
  C3 (as amended). The map holds at most one nonce per lowercased address: a second request
  for a nonce for the same address overwrites the first value. A verification that then
  presents the first value leaves by the nonce-mismatch branch, although it passed the nonce
  check before the second request, whenever the second value drawn differs from the first.
  The claim as stated has this for every pair of draws; nothing keeps the second draw from
  giving the first value again, and then the first value is still the stored one, as the
  counterexample shows.
\<close>

theorem second_issue_replaces_first:
  assumes given: "a \<noteq> []"
    and first: "issued = snd (api_nonce draw (JStr a) nonces)"
    and second: "reissued = snd (api_nonce draw' (JStr a) issued)"
    and differ: "fresh_nonce draw' \<noteq> fresh_nonce draw"
    and fields: "truthy (signature body)" "truthy (email body)"
    and claimed: "address body = JStr a'" "toLowerCase a' = toLowerCase a"
    and stale: "nonce body = JStr (fresh_nonce draw)"
  shows "map_get issued (toLowerCase a) = JStr (fresh_nonce draw)
    \<and> map_get reissued (toLowerCase a) = JStr (fresh_nonce draw')
    \<and> fst (api_verify vm body issued) \<noteq> Inr NonceMismatch
    \<and> api_verify vm body reissued = (Inr NonceMismatch, reissued)"
proof -
  have n1: "issued = map_set nonces (toLowerCase a) (fresh_nonce draw)"
    using given by (simp add: first api_nonce_string)
  have n2: "reissued = map_set issued (toLowerCase a) (fresh_nonce draw')"
    using given by (simp add: second api_nonce_string)
  have g1: "map_get issued (toLowerCase a) = JStr (fresh_nonce draw)"
    by (simp add: n1 map_get_def map_set_def)
  have g2: "map_get reissued (toLowerCase a) = JStr (fresh_nonce draw')"
    by (simp add: n2 map_get_def map_set_def)
  from given claimed(2) have "a' \<noteq> []" by (auto simp: toLowerCase_def)
  then have present: "truthy (address body)" "truthy (signature body)" "truthy (nonce body)"
      "truthy (email body)"
    using fields by (simp_all add: claimed(1) stale fresh_nonce_not_empty)
  have before: "fst (api_verify vm body issued) \<noteq> Inr NonceMismatch"
    by (simp add: api_verify_present [OF present claimed(1)] claimed(2) g1 stale
        split: sum.splits)
  have after: "api_verify vm body reissued = (Inr NonceMismatch, reissued)"
    using differ by (simp add: api_verify_present [OF present claimed(1)] claimed(2) g2 stale)
  from g1 g2 before after show ?thesis by simp
qed

theorem second_issue_replaces_first_witness:
  "fresh_nonce largest_below_one \<noteq> fresh_nonce half
   \<and> map_get example_nonces ''0xabc1'' = JStr ''500000''
   \<and> map_get (snd (api_nonce largest_below_one (JStr ''0xAbC1'') example_nonces)) ''0xabc1''
       = JStr ''999999''
   \<and> fst (api_verify toy_verifyMessage example_body example_nonces) \<noteq> Inr NonceMismatch
   \<and> api_verify toy_verifyMessage example_body
         (snd (api_nonce largest_below_one (JStr ''0xAbC1'') example_nonces))
       = (Inr NonceMismatch, snd (api_nonce largest_below_one (JStr ''0xAbC1'') example_nonces))"
proof -
  have given: "''0xAbC1'' \<noteq> []" by simp
  have differ: "fresh_nonce largest_below_one \<noteq> fresh_nonce half"
    by (simp add: fresh_nonce_largest fresh_nonce_half)
  have same: "toLowerCase ''0xaBc1'' = toLowerCase ''0xAbC1''"
    by (simp add: toLowerCase_example)
  have stale: "nonce example_body = JStr (fresh_nonce half)"
    by (simp add: example_body_fields fresh_nonce_half)
  note t = second_issue_replaces_first
      [where vm = toy_verifyMessage and body = example_body and nonces = new_Map
        and a = "''0xAbC1''" and a' = "''0xaBc1''" and draw = half and draw' = largest_below_one
        and issued = example_nonces
        and reissued = "snd (api_nonce largest_below_one (JStr ''0xAbC1'') example_nonces)",
       OF given example_nonces_def refl differ example_body_fields(4) example_body_fields(6)
        example_body_fields(1) same stale,
       unfolded fresh_nonce_half fresh_nonce_largest toLowerCase_example]
  from t differ show ?thesis by (intro conjI) blast+
qed

theorem repeated_draw_keeps_first_nonce_counterexample:
  "fst (api_nonce half (JStr ''0xAbC1'') new_Map) = Inr (Reply 200 (Nonce_body ''500000''))
   \<and> fst (api_nonce half (JStr ''0xAbC1'') example_nonces)
       = Inr (Reply 200 (Nonce_body ''500000''))
   \<and> nonce example_body = JStr ''500000''
   \<and> fst (api_verify toy_verifyMessage example_body
            (snd (api_nonce half (JStr ''0xAbC1'') example_nonces)))
       = Inr Verified"
proof -
  have again: "snd (api_nonce half (JStr ''0xAbC1'') example_nonces) ''0xabc1'' = Some ''500000''"
    by (simp add: api_nonce_string fresh_nonce_half toLowerCase_example map_set_def)
  have "fst (api_verify toy_verifyMessage example_body
            (snd (api_nonce half (JStr ''0xAbC1'') example_nonces))) = Inr Verified"
    by (simp add: api_verify_present [OF example_body_fields(3-6) example_body_fields(1)]
        example_body_fields(2) example_body_recovered toLowerCase_example map_get_def again)
  then show ?thesis
    by (simp add: api_nonce_string fresh_nonce_half example_body_fields)
qed

text \<open>
  C4. For a verification request with the four fields present, \<open>key\<close> the lowercased form
  of its address: when no nonce is stored under \<open>key\<close>, or the stored value is not the very
  string claimed, the handler leaves by the nonce-mismatch branch (status 401), the same for a
  nonce never handed out and for one replaced since, and the map is unchanged.
\<close>

theorem unknown_or_stale_nonce_is_rejected:
  assumes fields: "truthy (address body)" "truthy (signature body)" "truthy (nonce body)"
      "truthy (email body)"
    and canonical: "call_toLowerCase (address body) = Inr key"
    and mismatch: "nonces key = None \<or> (\<exists>v. nonces key = Some v \<and> nonce body \<noteq> JStr v)"
  shows "api_verify vm body nonces = (Inr NonceMismatch, nonces)
    \<and> verdict_reply NonceMismatch = Reply 401 (Success_body False)"
proof -
  from canonical obtain a where claimed: "address body = JStr a" and key: "key = toLowerCase a"
    by (cases "address body") auto
  from mismatch fields(3) have "map_get nonces (toLowerCase a) \<noteq> nonce body"
    by (auto simp: map_get_def key)
  then show ?thesis by (simp add: api_verify_present [OF fields claimed])
qed

theorem unknown_or_stale_nonce_is_rejected_witness:
  "new_Map ''0xabc1'' = None
   \<and> api_verify toy_verifyMessage example_body new_Map = (Inr NonceMismatch, new_Map)
   \<and> example_nonces ''0xabc1'' = Some ''500000''
   \<and> api_verify toy_verifyMessage (example_body\<lparr>nonce := JStr ''123456''\<rparr>) example_nonces
       = (Inr NonceMismatch, example_nonces)"
proof -
  let ?stale = "example_body\<lparr>nonce := JStr ''123456''\<rparr>"
  have canonical: "call_toLowerCase (address example_body) = Inr ''0xabc1''"
    by (simp add: example_body_fields toLowerCase_example)
  have never: "new_Map ''0xabc1'' = None
      \<or> (\<exists>v. new_Map ''0xabc1'' = Some v \<and> nonce example_body \<noteq> JStr v)"
    by (simp add: new_Map_def)
  have fields: "truthy (address ?stale)" "truthy (signature ?stale)" "truthy (nonce ?stale)"
      "truthy (email ?stale)"
    by (simp_all add: example_body_fields)
  have claimed: "call_toLowerCase (address ?stale) = Inr ''0xabc1''"
    by (simp add: example_body_fields toLowerCase_example)
  have replaced: "example_nonces ''0xabc1'' = None
      \<or> (\<exists>v. example_nonces ''0xabc1'' = Some v \<and> nonce ?stale \<noteq> JStr v)"
    by (simp add: example_nonces_lookup)
  from unknown_or_stale_nonce_is_rejected
      [where vm = toy_verifyMessage and body = example_body and nonces = new_Map
        and key = "''0xabc1''",
       OF example_body_fields(3-6) canonical never]
  have "api_verify toy_verifyMessage example_body new_Map = (Inr NonceMismatch, new_Map)"
    by blast
  moreover from unknown_or_stale_nonce_is_rejected
      [where vm = toy_verifyMessage and body = ?stale and nonces = example_nonces
        and key = "''0xabc1''",
       OF fields claimed replaced]
  have "api_verify toy_verifyMessage ?stale example_nonces = (Inr NonceMismatch, example_nonces)"
    by blast
  moreover have "new_Map ''0xabc1'' = None" by (simp add: new_Map_def)
  ultimately show ?thesis using example_nonces_lookup by (intro conjI)
qed

text \<open>
  C5 (the handler departs from the claim). The claim has every verification request in which
  the address, the signature, the nonce or the email is missing or empty answered by the
  missing-field outcome, the map neither read nor changed. For a request that has a body this
  is what the handler does: it leaves by the missing-field branch (status 400) with the map as
  it was, the outcome is the same whatever the map holds, and any request sent next is
  answered as if this one had never been sent, so a nonce that was outstanding can still be
  verified. For a request with no body, in which all four fields are missing, line 78 throws
  before the test of line 80 is reached: the result is a \<^verbatim>\<open>TypeError\<close>, not the missing-field
  outcome. The map is as it was in that case too, and later requests are not affected.
\<close>

theorem missing_field_outcome_needs_a_body:
  "api_verify_req vm None nonces = (Inl TypeError, nonces)
   \<and> fst (api_verify_req vm None nonces) \<noteq> Inr MissingField
   \<and> (\<forall>vm' req'. api_verify_req vm' req' (snd (api_verify_req vm None nonces))
          = api_verify_req vm' req' nonces)
   \<and> (\<not> truthy (address body) \<or> \<not> truthy (signature body)
        \<or> \<not> truthy (nonce body) \<or> \<not> truthy (email body)
      \<longrightarrow> api_verify_req vm (Some body) nonces = (Inr MissingField, nonces)
          \<and> verdict_reply MissingField = Reply 400 (Success_body False)
          \<and> (\<forall>nonces'. fst (api_verify_req vm (Some body) nonces') = Inr MissingField)
          \<and> (\<forall>vm' req'. api_verify_req vm' req' (snd (api_verify_req vm (Some body) nonces))
                = api_verify_req vm' req' nonces))"
  by (simp add: api_verify_req_simps api_verify_missing)

theorem missing_field_outcome_needs_a_body_witness:
  "api_verify_req toy_verifyMessage None example_nonces = (Inl TypeError, example_nonces)
   \<and> fst (api_verify_req toy_verifyMessage None example_nonces) \<noteq> Inr MissingField
   \<and> api_verify_req toy_verifyMessage (Some (example_body\<lparr>email := JUndefined\<rparr>)) example_nonces
       = (Inr MissingField, example_nonces)
   \<and> fst (api_verify_req toy_verifyMessage (Some example_body)
            (snd (api_verify_req toy_verifyMessage (Some (example_body\<lparr>email := JUndefined\<rparr>))
               example_nonces)))
       = Inr Verified
   \<and> fst (api_verify_req toy_verifyMessage (Some example_body)
            (snd (api_verify_req toy_verifyMessage None example_nonces)))
       = Inr Verified"
proof -
  let ?body = "example_body\<lparr>email := JUndefined\<rparr>"
  have missing: "\<not> truthy (address ?body) \<or> \<not> truthy (signature ?body)
      \<or> \<not> truthy (nonce ?body) \<or> \<not> truthy (email ?body)"
    by simp
  note t = missing_field_outcome_needs_a_body [of toy_verifyMessage example_nonces ?body]
  have verified: "fst (api_verify_req toy_verifyMessage (Some example_body) example_nonces)
      = Inr Verified"
    by (simp add: api_verify_req_simps example_verified)
  from t have thrown: "api_verify_req toy_verifyMessage None example_nonces
      = (Inl TypeError, example_nonces)"
    by blast
  from t have not_missing: "fst (api_verify_req toy_verifyMessage None example_nonces)
      \<noteq> Inr MissingField"
    by blast
  from t missing have rejected: "api_verify_req toy_verifyMessage (Some ?body) example_nonces
      = (Inr MissingField, example_nonces)"
    by blast
  from t missing have "api_verify_req toy_verifyMessage (Some example_body)
        (snd (api_verify_req toy_verifyMessage (Some ?body) example_nonces))
      = api_verify_req toy_verifyMessage (Some example_body) example_nonces"
    by blast
  with verified have after_missing: "fst (api_verify_req toy_verifyMessage (Some example_body)
        (snd (api_verify_req toy_verifyMessage (Some ?body) example_nonces))) = Inr Verified"
    by simp
  from t have "api_verify_req toy_verifyMessage (Some example_body)
        (snd (api_verify_req toy_verifyMessage None example_nonces))
      = api_verify_req toy_verifyMessage (Some example_body) example_nonces"
    by blast
  with verified have after_thrown: "fst (api_verify_req toy_verifyMessage (Some example_body)
        (snd (api_verify_req toy_verifyMessage None example_nonces))) = Inr Verified"
    by simp
  from thrown not_missing rejected after_missing after_thrown show ?thesis by (intro conjI)
qed

text \<open>
  C6. Address strings that differ only in letter case are one address: they have the same
  lowercase form, which is the key of every store access and the form in which the recovered
  signer is compared. So when a nonce is handed out for \<open>a\<close>, a request that claims any case
  variant \<open>a'\<close> of \<open>a\<close> with that nonce, and whose signature recovers a signer equal to \<open>a'\<close>
  up to letter case, is verified.
\<close>

theorem case_variants_name_one_address:
  assumes variant: "same_up_to_case a a'"
    and given: "a \<noteq> []"
    and claimed: "address body = JStr a'" "nonce body = JStr (fresh_nonce rnd)"
    and fields: "truthy (signature body)" "truthy (email body)"
    and recovered: "vm (signing_message (nonce body)) (signature body) = Inr r"
      "same_up_to_case r a'"
  shows "toLowerCase a' = toLowerCase a
    \<and> fst (api_nonce rnd (JStr a) nonces) = Inr (Reply 200 (Nonce_body (fresh_nonce rnd)))
    \<and> fst (api_verify vm body (snd (api_nonce rnd (JStr a) nonces))) = Inr Verified
    \<and> snd (api_verify vm body (snd (api_nonce rnd (JStr a) nonces))) (toLowerCase a) = None"
proof -
  from variant have key: "toLowerCase a' = toLowerCase a"
    by (simp add: same_up_to_case_iff)
  from recovered(2) have signer: "toLowerCase r = toLowerCase a'"
    by (simp add: same_up_to_case_iff)
  from given key have "a' \<noteq> []" by (auto simp: toLowerCase_def)
  then have present: "truthy (address body)" "truthy (signature body)" "truthy (nonce body)"
      "truthy (email body)"
    using fields by (simp_all add: claimed fresh_nonce_not_empty)
  have issued: "api_nonce rnd (JStr a) nonces
      = (Inr (Reply 200 (Nonce_body (fresh_nonce rnd))),
         map_set nonces (toLowerCase a) (fresh_nonce rnd))"
    using given by (rule api_nonce_string)
  have "api_verify vm body (map_set nonces (toLowerCase a) (fresh_nonce rnd))
      = (Inr Verified,
         map_delete (map_set nonces (toLowerCase a) (fresh_nonce rnd)) (toLowerCase a))"
    using recovered(1) signer
    by (simp add: api_verify_present [OF present claimed(1)] key claimed(2) map_get_def
        map_set_def)
  with key issued show ?thesis by (simp add: map_delete_def)
qed

theorem case_variants_name_one_address_witness:
  "same_up_to_case ''0xAbC1'' ''0xaBc1''
   \<and> same_up_to_case ''0xABC1'' ''0xaBc1''
   \<and> fst (api_nonce half (JStr ''0xAbC1'') new_Map) = Inr (Reply 200 (Nonce_body ''500000''))
   \<and> fst (api_verify toy_verifyMessage example_body
            (snd (api_nonce half (JStr ''0xAbC1'') new_Map)))
       = Inr Verified"
proof -
  have variant: "same_up_to_case ''0xAbC1'' ''0xaBc1''"
    by (simp add: same_up_to_case_iff toLowerCase_example)
  have signer: "same_up_to_case ''0xABC1'' ''0xaBc1''"
    by (simp add: same_up_to_case_iff toLowerCase_example)
  have given: "''0xAbC1'' \<noteq> []" by simp
  have claimed: "nonce example_body = JStr (fresh_nonce half)"
    by (simp add: example_body_fields fresh_nonce_half)
  note t = case_variants_name_one_address
      [where vm = toy_verifyMessage and body = example_body and nonces = new_Map
        and a = "''0xAbC1''" and a' = "''0xaBc1''" and rnd = half and r = "''0xABC1''",
       OF variant given example_body_fields(1) claimed example_body_fields(4)
        example_body_fields(6) example_body_recovered(1) signer,
       unfolded fresh_nonce_half]
  from t variant signer show ?thesis by (intro conjI) blast+
qed

text \<open>
  C7. The message handed to signature recovery is a function of the claimed nonce alone: for a
  nonce string \<open>n\<close> it is the fixed line \<^verbatim>\<open>Sign to verify ownership:\<close>, a newline,
  \<^verbatim>\<open>Nonce: \<close> and \<open>n\<close> as it stands; two nonces give the same message exactly when they
  are the same; and the verify handler consults the recovery function at this message and the
  body's signature only, so two recovery functions that agree there give the same result.
\<close>

theorem signing_message_determined_by_nonce:
  "signing_message (JStr n) = ''Sign to verify ownership:'' @ [CHR 0x0A] @ ''Nonce: '' @ n
   \<and> (signing_message (JStr n) = signing_message (JStr n')) = (n = n')
   \<and> (\<forall>vm vm' (body :: verify_body) nonces.
         vm (signing_message (nonce body)) (signature body)
           = vm' (signing_message (nonce body)) (signature body)
         \<longrightarrow> api_verify vm body nonces = api_verify vm' body nonces)"
proof (intro conjI allI impI)
  show "signing_message (JStr n) = ''Sign to verify ownership:'' @ [CHR 0x0A] @ ''Nonce: '' @ n"
    by (simp add: signing_message_def)
  show "(signing_message (JStr n) = signing_message (JStr n')) = (n = n')"
    by (simp add: signing_message_def)
next
  fix vm vm' :: "string \<Rightarrow> jsval \<Rightarrow> js_error + string"
    and body :: verify_body
    and nonces :: nonce_map
  assume "vm (signing_message (nonce body)) (signature body)
           = vm' (signing_message (nonce body)) (signature body)"
  then show "api_verify vm body nonces = api_verify vm' body nonces"
    by (simp add: api_verify_def Let_def split: sum.splits)
qed

theorem signing_message_determined_by_nonce_witness:
  "signing_message (JStr ''500000'')
     = ''Sign to verify ownership:'' @ [CHR 0x0A] @ ''Nonce: '' @ ''500000''
   \<and> signing_message (JStr ''500000'') \<noteq> signing_message (JStr ''500001'')
   \<and> toy_verifyMessage (signing_message (nonce example_body)) (signature example_body)
       = const_verifyMessage (Inr ''0xABC1'') (signing_message (nonce example_body))
           (signature example_body)
   \<and> api_verify toy_verifyMessage example_body example_nonces
       = api_verify (const_verifyMessage (Inr ''0xABC1'')) example_body example_nonces"
proof -
  note t = signing_message_determined_by_nonce [of "''500000''" "''500001''"]
  have agree: "toy_verifyMessage (signing_message (nonce example_body)) (signature example_body)
       = const_verifyMessage (Inr ''0xABC1'') (signing_message (nonce example_body))
           (signature example_body)"
    by (simp add: example_body_recovered const_verifyMessage_def)
  from t have "api_verify toy_verifyMessage example_body example_nonces
       = api_verify (const_verifyMessage (Inr ''0xABC1'')) example_body example_nonces"
    using agree by blast
  moreover have "''500000'' \<noteq> ''500001''" by simp
  with t have "signing_message (JStr ''500000'') \<noteq> signing_message (JStr ''500001'')"
    by blast
  moreover from t have "signing_message (JStr ''500000'')
     = ''Sign to verify ownership:'' @ [CHR 0x0A] @ ''Nonce: '' @ ''500000''" by blast
  ultimately show ?thesis using agree by (intro conjI)
qed

text \<open>
  C8 (as amended). The nonce handler replies 400 with the error \<^verbatim>\<open>Address required\<close> and
  stores nothing when the address is missing or empty. For every non-empty address string,
  well-formed or not, it replies 200 with the value just drawn and stores that value under the
  lowercased address. The claim as stated also has malformed addresses rejected; the handler has
  no test of the address format, as the counterexample shows.
\<close>

theorem nonce_request_outcomes:
  "(\<not> truthy addr \<longrightarrow>
      api_nonce rnd addr nonces = (Inr (Reply 400 (Error_body ''Address required'')), nonces))
   \<and> (a \<noteq> [] \<longrightarrow>
        fst (api_nonce rnd (JStr a) nonces) = Inr (Reply 200 (Nonce_body (fresh_nonce rnd)))
        \<and> snd (api_nonce rnd (JStr a) nonces) = map_set nonces (toLowerCase a) (fresh_nonce rnd)
        \<and> map_get (snd (api_nonce rnd (JStr a) nonces)) (toLowerCase a) = JStr (fresh_nonce rnd))"
  by (simp add: api_nonce_missing api_nonce_string map_get_def map_set_def)

theorem nonce_request_outcomes_witness:
  "api_nonce half (JStr []) example_nonces
     = (Inr (Reply 400 (Error_body ''Address required'')), example_nonces)
   \<and> fst (api_nonce half (JStr ''0xAbC1'') new_Map) = Inr (Reply 200 (Nonce_body ''500000''))
   \<and> map_get (snd (api_nonce half (JStr ''0xAbC1'') new_Map)) ''0xabc1'' = JStr ''500000''"
proof -
  have empty: "\<not> truthy (JStr [])" by simp
  have given: "''0xAbC1'' \<noteq> []" by simp
  note missing = nonce_request_outcomes [of "JStr []" half example_nonces "''0xAbC1''"]
  note present = nonce_request_outcomes [of "JStr []" half new_Map "''0xAbC1''",
      unfolded fresh_nonce_half toLowerCase_example]
  from missing empty have "api_nonce half (JStr []) example_nonces
     = (Inr (Reply 400 (Error_body ''Address required'')), example_nonces)" by blast
  moreover from present given
  have "fst (api_nonce half (JStr ''0xAbC1'') new_Map) = Inr (Reply 200 (Nonce_body ''500000''))"
    by blast
  moreover from present given
  have "map_get (snd (api_nonce half (JStr ''0xAbC1'') new_Map)) ''0xabc1'' = JStr ''500000''"
    by blast
  ultimately show ?thesis by (intro conjI)
qed

theorem malformed_address_accepted_counterexample:
  "\<not> is_hex_address ''zz''
   \<and> fst (api_nonce half (JStr ''zz'') new_Map) = Inr (Reply 200 (Nonce_body ''500000''))
   \<and> snd (api_nonce half (JStr ''zz'') new_Map) ''zz'' = Some ''500000''"
proof -
  have "toLowerCase ''zz'' = ''zz''" by code_simp
  then show ?thesis
    by (simp add: is_hex_address_def api_nonce_string fresh_nonce_half map_set_def)
qed

text \<open>
  C9. Every nonce the nonce handler hands out is the decimal text of an integer \<open>k\<close> with
  \<open>0 \<le> k < 1000000\<close>: whenever \<^verbatim>\<open>Math.random()\<close> returned a binary64 number in \<open>[0, 1)\<close>
  and the handler replied with a nonce \<open>n\<close>, there is \<open>k < 1000000\<close> with \<open>n = decimal k\<close>;
  \<open>n\<close> consists of digits and reads back as \<open>k\<close>. The product is the rounded binary64
  product, not the exact one.
\<close>

theorem issued_nonce_is_decimal_below_million:
  assumes "is_random rnd"
    and "fst (api_nonce rnd addr nonces) = Inr (Reply 200 (Nonce_body n))"
  shows "\<exists>k<1000000. n = decimal k \<and> parse_decimal n = k \<and> list_all is_digit n"
proof -
  from assms(2) have "n = fresh_nonce rnd"
    by (auto simp: api_nonce_def Let_def split: if_splits sum.splits)
  with fresh_nonce_decimal [OF assms(1)] show ?thesis
    by (auto simp: parse_decimal_decimal decimal_digits)
qed

theorem issued_nonce_is_decimal_below_million_witness:
  "is_random largest_below_one
   \<and> fst (api_nonce largest_below_one (JStr ''0xAbC1'') new_Map)
       = Inr (Reply 200 (Nonce_body ''999999''))
   \<and> (\<exists>k<1000000. ''999999'' = decimal k \<and> parse_decimal ''999999'' = k
         \<and> list_all is_digit ''999999'')"
proof -
  have i: "fst (api_nonce largest_below_one (JStr ''0xAbC1'') new_Map)
      = Inr (Reply 200 (Nonce_body ''999999''))"
    by (simp add: api_nonce_string fresh_nonce_largest)
  from issued_nonce_is_decimal_below_million [OF is_random_largest i] is_random_largest i
  show ?thesis by (intro conjI)
qed

text \<open>
  C10. Each handler changes at most the entry of the lowercased form of its own address. The
  nonce handler leaves every key other than the lowercased address as it was (and the whole
  map when the address is no string). A verification that succeeds deletes the entry of the
  lowercased claimed address and leaves every other key as it was; a verification that does
  not succeed, by a failure outcome or by an exception, leaves the whole map as it was.
\<close>

theorem handlers_change_only_their_own_entry:
  "(\<forall>k. (\<forall>a. addr = JStr a \<longrightarrow> k \<noteq> toLowerCase a)
        \<longrightarrow> snd (api_nonce rnd addr nonces) k = nonces k)
   \<and> (fst (api_verify vm body nonces) = Inr Verified \<longrightarrow>
        (\<exists>a. address body = JStr a
           \<and> snd (api_verify vm body nonces) = map_delete nonces (toLowerCase a)
           \<and> (\<forall>k. k \<noteq> toLowerCase a \<longrightarrow> snd (api_verify vm body nonces) k = nonces k)))
   \<and> (fst (api_verify vm body nonces) \<noteq> Inr Verified \<longrightarrow>
        snd (api_verify vm body nonces) = nonces)"
proof (intro conjI allI impI)
  fix k
  assume other: "\<forall>a. addr = JStr a \<longrightarrow> k \<noteq> toLowerCase a"
  show "snd (api_nonce rnd addr nonces) k = nonces k"
  proof (cases addr)
    case (JStr a)
    with other have "k \<noteq> toLowerCase a" by simp
    then show ?thesis by (simp add: JStr api_nonce_def Let_def map_set_def)
  qed (simp_all add: api_nonce_def Let_def)
next
  assume "fst (api_verify vm body nonces) = Inr Verified"
  with api_verify_store [of vm body nonces]
  obtain a where "address body = JStr a"
    and "snd (api_verify vm body nonces) = map_delete nonces (toLowerCase a)"
    by auto
  then show "\<exists>a. address body = JStr a
      \<and> snd (api_verify vm body nonces) = map_delete nonces (toLowerCase a)
      \<and> (\<forall>k. k \<noteq> toLowerCase a \<longrightarrow> snd (api_verify vm body nonces) k = nonces k)"
    by (auto simp: map_delete_def)
next
  assume "fst (api_verify vm body nonces) \<noteq> Inr Verified"
  with api_verify_store [of vm body nonces]
  show "snd (api_verify vm body nonces) = nonces" by auto
qed

theorem handlers_change_only_their_own_entry_witness:
  "example_nonces ''0xabc1'' = Some ''500000''
   \<and> snd (api_nonce largest_below_one (JStr ''0xFFFF'') example_nonces) ''0xabc1''
       = Some ''500000''
   \<and> two_nonces ''0xffff'' = Some ''999999''
   \<and> fst (api_verify toy_verifyMessage example_body two_nonces) = Inr Verified
   \<and> snd (api_verify toy_verifyMessage example_body two_nonces) ''0xffff'' = Some ''999999''
   \<and> snd (api_verify toy_verifyMessage (example_body\<lparr>email := JNull\<rparr>) two_nonces)
       = two_nonces"
proof -
  have lower: "toLowerCase ''0xFFFF'' = ''0xffff''" by code_simp
  have verified: "fst (api_verify toy_verifyMessage example_body two_nonces) = Inr Verified"
    by (simp add: two_nonces_verified)
  have failed: "fst (api_verify toy_verifyMessage (example_body\<lparr>email := JNull\<rparr>) two_nonces)
      \<noteq> Inr Verified"
    by (simp add: api_verify_missing)
  have other: "\<forall>a. JStr ''0xFFFF'' = JStr a \<longrightarrow> ''0xabc1'' \<noteq> toLowerCase a"
    by (simp add: lower)
  from handlers_change_only_their_own_entry
      [of "JStr ''0xFFFF''" largest_below_one example_nonces toy_verifyMessage example_body]
    other
  have issue: "snd (api_nonce largest_below_one (JStr ''0xFFFF'') example_nonces) ''0xabc1''
      = example_nonces ''0xabc1''"
    by blast
  from handlers_change_only_their_own_entry
      [of "JStr ''0xFFFF''" largest_below_one two_nonces toy_verifyMessage example_body]
    verified
  obtain a where a: "address example_body = JStr a"
    and rest: "\<forall>k. k \<noteq> toLowerCase a
        \<longrightarrow> snd (api_verify toy_verifyMessage example_body two_nonces) k = two_nonces k"
    by blast
  from a have "a = ''0xaBc1''" by (simp add: example_body_fields)
  then have "''0xffff'' \<noteq> toLowerCase a" by (simp add: toLowerCase_example)
  with rest have kept: "snd (api_verify toy_verifyMessage example_body two_nonces) ''0xffff''
      = two_nonces ''0xffff''"
    by blast
  from handlers_change_only_their_own_entry
      [of "JStr ''0xFFFF''" largest_below_one two_nonces toy_verifyMessage
        "example_body\<lparr>email := JNull\<rparr>"]
    failed
  have unchanged: "snd (api_verify toy_verifyMessage (example_body\<lparr>email := JNull\<rparr>) two_nonces)
      = two_nonces"
    by blast
  from issue kept unchanged verified show ?thesis
    by (simp add: example_nonces_lookup two_nonces_lookup)
qed

end
